theory Spec2Isabelle
  imports
    Complex_Main
    "HOL-Library.AList"
    "HOL-Library.Char_ord"
    "HOL-Library.List_Lexorder"
    "HOL-Library.Multiset"
begin

section \<open>Circuits of the landscape-scan demo\<close>

text \<open>
  The notebook \<^verbatim>\<open>docs/run_landscape_scan.ipynb\<close> builds pyquil programs from two gates,
  \<^verbatim>\<open>RY(angle, qubit)\<close> and \<^verbatim>\<open>CNOT(control, target)\<close>. A program is the ordered list of
  its instructions. Angles are Python floats, read here as real numbers (negation and
  halving are exact in both); physical qubit indices are non-negative integers.
\<close>

datatype gate = RY real nat | CNOT nat nat

type_synonym Program = "gate list"

datatype error = IndexError | TypeError | ConfigurationError | ExecutionError

text \<open>Python's \<^verbatim>\<open>xs[i]\<close> for a non-negative constant \<open>i\<close>: IndexError out of range.\<close>

definition getitem :: "'a list \<Rightarrow> nat \<Rightarrow> error + 'a" where
  "getitem xs i = (if i < length xs then Inr (xs ! i) else Inl IndexError)"

text \<open>Sequencing of statements that may raise: the first exception ends the function.\<close>

definition bind_e :: "error + 'a \<Rightarrow> ('a \<Rightarrow> error + 'b) \<Rightarrow> error + 'b" where
  "bind_e m f = (case m of Inl e \<Rightarrow> Inl e | Inr x \<Rightarrow> f x)"

subsection \<open>Cell 5: state preparation and its dagger\<close>

text \<open>
  \<^verbatim>\<open>
  def _state_prep_circuit(phi, qubit_indices):
      circuit = Program()
      circuit += Program(RY(phi[0], qubit_indices[1]))
      circuit += Program(CNOT(qubit_indices[1], qubit_indices[0]))
      return circuit
  \<close>
  Arguments are evaluated left to right, statement by statement.
\<close>

definition state_prep_circuit :: "real list \<Rightarrow> nat list \<Rightarrow> error + Program" where
  "state_prep_circuit phi qubit_indices =
     bind_e (getitem phi 0) (\<lambda>p.
     bind_e (getitem qubit_indices 1) (\<lambda>q1.
     bind_e (getitem qubit_indices 1) (\<lambda>c.
     bind_e (getitem qubit_indices 0) (\<lambda>t.
       Inr (([] @ [RY p q1]) @ [CNOT c t])))))"

text \<open>
  \<^verbatim>\<open>
  def _state_prep_circuit_dag(phi, qubit_indices):
      circuit = Program()
      circuit += Program(CNOT(qubit_indices[1], qubit_indices[0]))
      circuit += Program(RY(-phi[0], qubit_indices[1]))
      return circuit
  \<close>
\<close>

definition state_prep_circuit_dag :: "real list \<Rightarrow> nat list \<Rightarrow> error + Program" where
  "state_prep_circuit_dag phi qubit_indices =
     bind_e (getitem qubit_indices 1) (\<lambda>c.
     bind_e (getitem qubit_indices 0) (\<lambda>t.
     bind_e (getitem phi 0) (\<lambda>p.
     bind_e (getitem qubit_indices 1) (\<lambda>q1.
       Inr (([] @ [CNOT c t]) @ [RY (- p) q1])))))"

subsection \<open>Cell 12: the one-parameter training circuit and its dagger\<close>

text \<open>
  \<^verbatim>\<open>
  def _training_circuit(theta, qubit_indices):
      circuit = Program()
      circuit += Program(RY(-theta[0]/2, qubit_indices[0]))
      circuit += Program(CNOT(qubit_indices[1], qubit_indices[0]))
      return circuit
  \<close>
  Python reads \<^verbatim>\<open>-theta[0]/2\<close> as \<^verbatim>\<open>(-theta[0])/2\<close>.
\<close>

definition training_circuit :: "real list \<Rightarrow> nat list \<Rightarrow> error + Program" where
  "training_circuit theta qubit_indices =
     bind_e (getitem theta 0) (\<lambda>th.
     bind_e (getitem qubit_indices 0) (\<lambda>q0.
     bind_e (getitem qubit_indices 1) (\<lambda>c.
     bind_e (getitem qubit_indices 0) (\<lambda>t.
       Inr (([] @ [RY ((- th) / 2) q0]) @ [CNOT c t])))))"

text \<open>
  \<^verbatim>\<open>
  def _training_circuit_dag(theta, qubit_indices):
      circuit = Program()
      circuit += Program(CNOT(qubit_indices[1], qubit_indices[0]))
      circuit += Program(RY(theta[0]/2, qubit_indices[0]))
      return circuit
  \<close>
\<close>

definition training_circuit_dag :: "real list \<Rightarrow> nat list \<Rightarrow> error + Program" where
  "training_circuit_dag theta qubit_indices =
     bind_e (getitem qubit_indices 1) (\<lambda>c.
     bind_e (getitem qubit_indices 0) (\<lambda>t.
     bind_e (getitem theta 0) (\<lambda>th.
     bind_e (getitem qubit_indices 0) (\<lambda>q0.
       Inr (([] @ [CNOT c t]) @ [RY (th / 2) q0])))))"

subsection \<open>The spec's notion of a daggered circuit\<close>

text \<open>
  The glossary of the specification: the daggered circuit is "the inverse circuit,
  applying the reverse gate sequence with negated rotation parameters". The two
  definitions below follow these words; they are what the hand-written
  \<^verbatim>\<open>_dag\<close> builders of the notebook are compared with.
\<close>

fun inverse_gate :: "gate \<Rightarrow> gate" where
  "inverse_gate (RY a q) = RY (- a) q"
| "inverse_gate (CNOT c t) = CNOT c t"

definition dagger :: "Program \<Rightarrow> Program" where
  "dagger c = rev (map inverse_gate c)"

text \<open>
  Cancellation at the gate-sequence level: reading a program left to right, a gate that
  directly follows its own inverse is removed together with it. The stack holds the
  gates that survive so far, the latest on top.
\<close>

fun push_gate :: "gate \<Rightarrow> Program \<Rightarrow> Program" where
  "push_gate g [] = [g]"
| "push_gate g (h # st) = (if h = inverse_gate g then st else g # h # st)"

definition cancel :: "Program \<Rightarrow> Program" where
  "cancel c = rev (fold push_gate c [])"

section \<open>Qubit labelling\<close>

text \<open>
  A Python dictionary from abstract labels to physical indices is an association list in
  insertion order; its keys are distinct. Labels are compared as Python compares strings:
  character by character, a proper prefix first.
\<close>

subsection \<open>Cell 3: the settings of the demo\<close>

text \<open>
  \<^verbatim>\<open>
  q_in = {'q0': 0, 'q1': 1} # Input qubits
  q_latent = {'q1': 1}      # Latent space qubits
  q_refresh = {'q2': 2}     # Refresh qubits
  trash_training = False
  reset = False
  n_shots = 5000
  \<close>
\<close>

definition q_in :: "(string \<times> nat) list" where
  "q_in = [(''q0'', 0), (''q1'', 1)]"

definition q_latent :: "(string \<times> nat) list" where
  "q_latent = [(''q1'', 1)]"

definition q_refresh :: "(string \<times> nat) list" where
  "q_refresh = [(''q2'', 2)]"

definition trash_training :: bool where
  "trash_training = False"

definition reset :: bool where
  "reset = False"

definition n_shots :: nat where
  "n_shots = 5000"

subsection \<open>The helpers of \<^verbatim>\<open>qcompress.utils\<close>\<close>

text \<open>
  Modelled from the spec: \<^verbatim>\<open>order_qubit_labels\<close> is imported from
  \<^verbatim>\<open>qcompress.utils\<close>, which is not among the sources. The specification (4.1): "sort
  abstract labels lexicographically [...] before extracting physical indices". The items
  are sorted by label and the indices read off in that order.
\<close>

definition order_qubit_labels :: "('k::linorder \<times> nat) list \<Rightarrow> nat list" where
  "order_qubit_labels qubit_dict = map snd (sort_key fst qubit_dict)"

text \<open>
  Modelled from the spec: \<^verbatim>\<open>merge_two_dicts\<close> is imported from \<^verbatim>\<open>qcompress.utils\<close>
  as well. The specification speaks of "the merged latent+refresh set"; the model is the
  dictionary union of Python, a copy of the first dictionary updated entry by entry with
  the second.
\<close>

definition merge_two_dicts :: "('k \<times> 'v) list \<Rightarrow> ('k \<times> 'v) list \<Rightarrow> ('k \<times> 'v) list" where
  "merge_two_dicts x y = fold (\<lambda>(k, v) z. AList.update k v z) y x"

subsection \<open>Cell 7: ordered physical indices\<close>

text \<open>
  \<^verbatim>\<open>
  compression_indices = order_qubit_labels(q_in).tolist()

  q_out = merge_two_dicts(q_latent, q_refresh)
  recovery_indices = order_qubit_labels(q_out).tolist()

  if not reset:
      recovery_indices = recovery_indices[::-1]
  \<close>
  The cell reads the globals of cell 3; here they are arguments.
\<close>

definition compression_indices :: "('k::linorder \<times> nat) list \<Rightarrow> nat list" where
  "compression_indices qi = order_qubit_labels qi"

definition recovery_indices ::
  "('k::linorder \<times> nat) list \<Rightarrow> ('k \<times> nat) list \<Rightarrow> bool \<Rightarrow> nat list" where
  "recovery_indices ql qr rst =
     (let q_out = merge_two_dicts ql qr;
          recovery = order_qubit_labels q_out
      in if \<not> rst then rev recovery else recovery)"

subsection \<open>Cells 10 and 14: the index list of the daggered circuits\<close>

text \<open>
  \<^verbatim>\<open>
  training_circuit = lambda param : _training_circuit(param, compression_indices)

  if reset:
      training_circuit_dag = lambda param : _training_circuit_dag(param, compression_indices)
  else:
      training_circuit_dag = lambda param : _training_circuit_dag(param, recovery_indices)
  \<close>
  Cell 10 chooses the index list of \<^verbatim>\<open>_state_prep_circuit_dag\<close> by the same test. The
  two lambdas carry the suffix \<open>_lambda\<close> here: the names without it are those of the
  builders of cell 12, written without their leading underscore.
\<close>

definition dag_indices ::
  "('k::linorder \<times> nat) list \<Rightarrow> ('k \<times> nat) list \<Rightarrow> ('k \<times> nat) list \<Rightarrow> bool \<Rightarrow> nat list" where
  "dag_indices qi ql qr rst =
     (if rst then compression_indices qi else recovery_indices ql qr rst)"

definition training_circuit_lambda ::
  "('k::linorder \<times> nat) list \<Rightarrow> real list \<Rightarrow> error + Program" where
  "training_circuit_lambda qi param = training_circuit param (compression_indices qi)"

definition training_circuit_dag_lambda ::
  "('k::linorder \<times> nat) list \<Rightarrow> ('k \<times> nat) list \<Rightarrow> ('k \<times> nat) list \<Rightarrow> bool \<Rightarrow>
   real list \<Rightarrow> error + Program" where
  "training_circuit_dag_lambda qi ql qr rst param =
     training_circuit_dag param (dag_indices qi ql qr rst)"

subsection \<open>Well-formed mappings\<close>

text \<open>
  The data model of the specification: within a role group the physical indices are
  unique (and the keys of a dictionary always are); each physical index has exactly one
  role. Two dictionaries are the same mapping when they hold the same entries, in
  whatever order these were inserted.
\<close>

definition QubitMapping_inv :: "('k \<times> nat) list \<Rightarrow> bool" where
  "QubitMapping_inv d \<longleftrightarrow> distinct (map fst d) \<and> distinct (map snd d)"

definition role_disjoint ::
  "('k \<times> nat) list \<Rightarrow> ('k \<times> nat) list \<Rightarrow> ('k \<times> nat) list \<Rightarrow> bool" where
  "role_disjoint qi ql qr \<longleftrightarrow>
     set (map snd qi) \<inter> set (map snd ql) = {}
   \<and> set (map snd qi) \<inter> set (map snd qr) = {}
   \<and> set (map snd ql) \<inter> set (map snd qr) = {}"

definition same_dict :: "('k \<times> 'v) list \<Rightarrow> ('k \<times> 'v) list \<Rightarrow> bool" where
  "same_dict d d' \<longleftrightarrow> distinct (map fst d) \<and> distinct (map fst d') \<and> map_of d = map_of d'"

section \<open>The builders as Python executes them\<close>

text \<open>
  For the frame of the builders the objects are made explicit: a store of Python objects
  addressed by reference, to which every \<^verbatim>\<open>Program(...)\<close> adds a new object, and a count of
  the circuit executions issued so far. The parameter list and the index list are
  objects of the store, passed by reference. pyquil's \<^verbatim>\<open>circuit += other\<close> extends the
  program \<^verbatim>\<open>circuit\<close> refers to, in place, by the instructions of \<^verbatim>\<open>other\<close>.
\<close>

datatype pyobj = FloatList "real list" | IntList "nat list" | ProgramObj Program

type_synonym ref = nat

record store =
  objs :: "pyobj list"
  executions :: nat

text \<open>A statement: it may raise, and it changes the state.\<close>

type_synonym ('a, 's) action = "'s \<Rightarrow> (error + 'a) \<times> 's"

definition return_a :: "'a \<Rightarrow> ('a, 's) action" where
  "return_a x s = (Inr x, s)"

definition bind_a :: "('a, 's) action \<Rightarrow> ('a \<Rightarrow> ('b, 's) action) \<Rightarrow> ('b, 's) action" where
  "bind_a m f s = (case m s of (Inl e, s') \<Rightarrow> (Inl e, s') | (Inr x, s') \<Rightarrow> f x s')"

definition lookup :: "store \<Rightarrow> ref \<Rightarrow> pyobj option" where
  "lookup s r = (if r < length (objs s) then Some (objs s ! r) else None)"

definition new_Program :: "gate list \<Rightarrow> (ref, store) action" where
  "new_Program gs s = (Inr (length (objs s)), s\<lparr>objs := objs s @ [ProgramObj gs]\<rparr>)"

definition iadd_Program :: "ref \<Rightarrow> ref \<Rightarrow> (unit, store) action" where
  "iadd_Program circuit other s =
     (case (lookup s circuit, lookup s other) of
        (Some (ProgramObj a), Some (ProgramObj b)) \<Rightarrow>
          (Inr (), s\<lparr>objs := (objs s)[circuit := ProgramObj (a @ b)]\<rparr>)
      | _ \<Rightarrow> (Inl TypeError, s))"

definition float_getitem :: "ref \<Rightarrow> nat \<Rightarrow> (real, store) action" where
  "float_getitem r i s =
     (case lookup s r of Some (FloatList xs) \<Rightarrow> (getitem xs i, s) | _ \<Rightarrow> (Inl TypeError, s))"

definition int_getitem :: "ref \<Rightarrow> nat \<Rightarrow> (nat, store) action" where
  "int_getitem r i s =
     (case lookup s r of Some (IntList xs) \<Rightarrow> (getitem xs i, s) | _ \<Rightarrow> (Inl TypeError, s))"

subsection \<open>Cells 5 and 12, statement by statement\<close>

definition state_prep_circuit_obj :: "ref \<Rightarrow> ref \<Rightarrow> (ref, store) action" where
  "state_prep_circuit_obj phi qubit_indices =
     bind_a (new_Program []) (\<lambda>circuit.
     bind_a (float_getitem phi 0) (\<lambda>p.
     bind_a (int_getitem qubit_indices 1) (\<lambda>q1.
     bind_a (new_Program [RY p q1]) (\<lambda>other.
     bind_a (iadd_Program circuit other) (\<lambda>_.
     bind_a (int_getitem qubit_indices 1) (\<lambda>c.
     bind_a (int_getitem qubit_indices 0) (\<lambda>t.
     bind_a (new_Program [CNOT c t]) (\<lambda>other.
     bind_a (iadd_Program circuit other) (\<lambda>_.
     return_a circuit)))))))))"

definition state_prep_circuit_dag_obj :: "ref \<Rightarrow> ref \<Rightarrow> (ref, store) action" where
  "state_prep_circuit_dag_obj phi qubit_indices =
     bind_a (new_Program []) (\<lambda>circuit.
     bind_a (int_getitem qubit_indices 1) (\<lambda>c.
     bind_a (int_getitem qubit_indices 0) (\<lambda>t.
     bind_a (new_Program [CNOT c t]) (\<lambda>other.
     bind_a (iadd_Program circuit other) (\<lambda>_.
     bind_a (float_getitem phi 0) (\<lambda>p.
     bind_a (int_getitem qubit_indices 1) (\<lambda>q1.
     bind_a (new_Program [RY (- p) q1]) (\<lambda>other.
     bind_a (iadd_Program circuit other) (\<lambda>_.
     return_a circuit)))))))))"

definition training_circuit_obj :: "ref \<Rightarrow> ref \<Rightarrow> (ref, store) action" where
  "training_circuit_obj theta qubit_indices =
     bind_a (new_Program []) (\<lambda>circuit.
     bind_a (float_getitem theta 0) (\<lambda>th.
     bind_a (int_getitem qubit_indices 0) (\<lambda>q0.
     bind_a (new_Program [RY ((- th) / 2) q0]) (\<lambda>other.
     bind_a (iadd_Program circuit other) (\<lambda>_.
     bind_a (int_getitem qubit_indices 1) (\<lambda>c.
     bind_a (int_getitem qubit_indices 0) (\<lambda>t.
     bind_a (new_Program [CNOT c t]) (\<lambda>other.
     bind_a (iadd_Program circuit other) (\<lambda>_.
     return_a circuit)))))))))"

definition training_circuit_dag_obj :: "ref \<Rightarrow> ref \<Rightarrow> (ref, store) action" where
  "training_circuit_dag_obj theta qubit_indices =
     bind_a (new_Program []) (\<lambda>circuit.
     bind_a (int_getitem qubit_indices 1) (\<lambda>c.
     bind_a (int_getitem qubit_indices 0) (\<lambda>t.
     bind_a (new_Program [CNOT c t]) (\<lambda>other.
     bind_a (iadd_Program circuit other) (\<lambda>_.
     bind_a (float_getitem theta 0) (\<lambda>th.
     bind_a (int_getitem qubit_indices 0) (\<lambda>q0.
     bind_a (new_Program [RY (th / 2) q0]) (\<lambda>other.
     bind_a (iadd_Program circuit other) (\<lambda>_.
     return_a circuit)))))))))"

subsection \<open>What pure construction means\<close>

text \<open>
  The store after a call extends the store before it: every object that existed keeps
  its value, and no execution is counted. The result is an object that did not exist
  before. The gate sequence of the result is read from the store after the call.
\<close>

definition frame_ok :: "store \<Rightarrow> store \<Rightarrow> bool" where
  "frame_ok s s' \<longleftrightarrow>
     take (length (objs s)) (objs s') = objs s \<and> executions s' = executions s"

definition gates_of :: "(error + ref) \<times> store \<Rightarrow> error + Program" where
  "gates_of res =
     (case res of
        (Inl e, s') \<Rightarrow> Inl e
      | (Inr c, s') \<Rightarrow>
          (case lookup s' c of Some (ProgramObj gs) \<Rightarrow> Inr gs | _ \<Rightarrow> Inl TypeError))"

definition fresh_result :: "store \<Rightarrow> (error + ref) \<times> store \<Rightarrow> bool" where
  "fresh_result s res =
     (case res of (Inl e, s') \<Rightarrow> True | (Inr c, s') \<Rightarrow> lookup s c = None \<and> lookup s' c \<noteq> None)"

text \<open>
  A builder constructs purely, with respect to a function of the contents of its two
  arguments, when from any store holding these contents it leaves the frame intact,
  returns a fresh object, and that object holds the function's gate sequence (or the call
  raises where the function does).
\<close>

definition pure_construction ::
  "(ref \<Rightarrow> ref \<Rightarrow> (ref, store) action) \<Rightarrow> (real list \<Rightarrow> nat list \<Rightarrow> error + Program) \<Rightarrow>
   ref \<Rightarrow> ref \<Rightarrow> real list \<Rightarrow> nat list \<Rightarrow> store \<Rightarrow> bool" where
  "pure_construction build f a b ps qs s \<longleftrightarrow>
     frame_ok s (snd (build a b s))
   \<and> fresh_result s (build a b s)
   \<and> gates_of (build a b s) = f ps qs"

text \<open>
  Calling a builder twice on the same arguments: the second program has the gates of the
  first, the first still has them after the second call, and the two are different
  objects.
\<close>

definition two_calls_agree :: "(ref \<Rightarrow> ref \<Rightarrow> (ref, store) action) \<Rightarrow> ref \<Rightarrow> ref \<Rightarrow> store \<Rightarrow> bool" where
  "two_calls_agree build a b s \<longleftrightarrow>
     (let first = build a b s; second = build a b (snd first)
      in gates_of second = gates_of first
       \<and> gates_of (fst first, snd second) = gates_of first
       \<and> (case (fst first, fst second) of (Inr c1, Inr c2) \<Rightarrow> c1 \<noteq> c2 | _ \<Rightarrow> True))"

definition demo_store :: store where
  "demo_store = \<lparr>objs = [FloatList [1], IntList [0, 1], ProgramObj [CNOT 0 1]], executions = 0\<rparr>"


section \<open>Loss landscape scan\<close>

subsection \<open>Cell 22: the scan over theta\<close>

text \<open>
  \<^verbatim>\<open>
  training_losses = []
  for angle in theta_scan:
      print("Theta scan: {}".format(angle))
      angle = [angle]
      training_loss = qae.compute_loss_function(angle)
      training_losses.append(training_loss)
  \<close>
  \<^verbatim>\<open>qae.compute_loss_function\<close> is a method of the engine: it may raise, and it changes
  the state of the engine and of the backend behind it. The loop takes it as it comes
  (\<open>loss_fn\<close>), together with the effect of \<^verbatim>\<open>print\<close> on that state. An exception ends the
  loop. Cell 23 plots \<^verbatim>\<open>training_losses\<close> against \<^verbatim>\<open>theta_scan\<close>, position by position.
\<close>

fun theta_scan_loop ::
  "(real list \<Rightarrow> (real, 's) action) \<Rightarrow> (real \<Rightarrow> 's \<Rightarrow> 's) \<Rightarrow> real list \<Rightarrow> real list \<Rightarrow>
   (real list, 's) action" where
  "theta_scan_loop loss_fn print_angle [] training_losses s =
     (Inr training_losses, s)"
| "theta_scan_loop loss_fn print_angle (angle # rest) training_losses s =
     (case loss_fn [angle] (print_angle angle s) of
        (Inl e, s') \<Rightarrow> (Inl e, s')
      | (Inr training_loss, s') \<Rightarrow>
          theta_scan_loop loss_fn print_angle rest
            (training_losses @ [training_loss]) s')"

definition landscape_scan ::
  "(real list \<Rightarrow> (real, 's) action) \<Rightarrow> (real \<Rightarrow> 's \<Rightarrow> 's) \<Rightarrow> real list \<Rightarrow> (real list, 's) action" where
  "landscape_scan loss_fn print_angle theta_scan =
     theta_scan_loop loss_fn print_angle theta_scan []"

definition landscape_points :: "real list \<Rightarrow> real list \<Rightarrow> (real \<times> real) list" where
  "landscape_points theta_scan training_losses = zip theta_scan training_losses"


section \<open>The engine behind the notebook\<close>

text \<open>
  \<^verbatim>\<open>qcompress.qae_engine\<close> is imported by the notebook and is not among the sources. What
  is needed of it below is modelled from the specification, definition by definition.
\<close>

subsection \<open>Measurement outcomes and the loss of one sample\<close>

text \<open>
  Modelled from the spec: the data model's MeasurementOutcome, "a mapping from observed
  bitstring to occurrence count; total counts sum to N", and the backend adapter's
  contract \<^verbatim>\<open>execute(circuit, shots) -> MeasurementOutcome\<close> (section 6), whose failures
  are fatal errors.
\<close>

type_synonym bitstring = "nat list"

type_synonym MeasurementOutcome = "(bitstring \<times> nat) list"

type_synonym backend = "Program \<Rightarrow> nat \<Rightarrow> error + MeasurementOutcome"

definition MeasurementOutcome_inv :: "MeasurementOutcome \<Rightarrow> nat \<Rightarrow> bool" where
  "MeasurementOutcome_inv outcome shots \<longleftrightarrow>
     distinct (map fst outcome) \<and> sum_list (map snd outcome) = shots"

text \<open>
  Modelled from the spec: the number of occurrences of the target outcome, zero when it
  "never appears" among the counts.
\<close>

definition target_count :: "MeasurementOutcome \<Rightarrow> bitstring \<Rightarrow> nat" where
  "target_count outcome target = (case map_of outcome target of None \<Rightarrow> 0 | Some c \<Rightarrow> c)"

text \<open>
  Modelled from the spec: the loss of the reference implementation (4.3), "the negative
  of that empirical probability", where "the empirical probability is
  \<^verbatim>\<open>target_count / n_shots\<close>", with the edge case "if \<^verbatim>\<open>n_shots\<close> is 0 or the target
  outcome never appears, the estimator returns a loss of 0".
\<close>

definition sample_loss :: "MeasurementOutcome \<Rightarrow> bitstring \<Rightarrow> nat \<Rightarrow> real" where
  "sample_loss outcome target shots =
     (if shots = 0 \<or> target_count outcome target = 0 then 0
      else - (real (target_count outcome target) / real shots))"

text \<open>
  Modelled from the spec: the state a training or scan run owns, reduced to the
  iteration counter of the data model's TrainingState and the number of backend calls
  issued (what a stub backend would record).
\<close>

record engine_state =
  backend_calls :: nat
  iteration :: nat

text \<open>
  Modelled from the spec: the LossEstimator for one sample (4.3), "execute a built
  circuit via the backend adapter for a fixed shot count and reduce the resulting
  measurement outcome(s) into a scalar loss"; a backend failure propagates.
\<close>

definition estimate_loss ::
  "backend \<Rightarrow> bitstring \<Rightarrow> nat \<Rightarrow> Program \<Rightarrow> (real, engine_state) action" where
  "estimate_loss execute target shots circuit st =
     (case execute circuit shots of
        Inl e \<Rightarrow> (Inl e, st\<lparr>backend_calls := Suc (backend_calls st)\<rparr>)
      | Inr outcome \<Rightarrow>
          (Inr (sample_loss outcome target shots), st\<lparr>backend_calls := Suc (backend_calls st)\<rparr>))"

subsection \<open>Mean loss and optimization mode\<close>

text \<open>
  Modelled from the spec: the configuration of a QAE instance. The circuit fields are
  those the notebook passes to \<^verbatim>\<open>quantum_autoencoder\<close> in cell 16 and the training split
  that of cell 19; \<open>n_parameters\<close> is "the ansatz's expected parameter count" of section
  4.4, \<open>cxn\<close> the backend adapter, \<open>target_outcome\<close> the outcome whose probability is
  estimated.
\<close>

type_synonym optimizer = "real list \<Rightarrow> real \<Rightarrow> real list option"

record qae =
  state_prep_circuits :: "Program list"
  training_circuit_of :: "real list \<Rightarrow> error + Program"
  state_prep_circuits_dag :: "Program list"
  training_circuit_dag_of :: "real list \<Rightarrow> error + Program"
  train_indices :: "nat list"
  n_parameters :: nat
  cxn :: backend
  target_outcome :: bitstring
  qae_n_shots :: nat

text \<open>
  Modelled from the spec: the composition rule of 4.2 for a full forward pass,
  "\<^verbatim>\<open>state_prep(sample)\<close> composed with \<^verbatim>\<open>training(theta)\<close> on the compression side, [...]
  followed by \<^verbatim>\<open>training_dag(theta)\<close> and \<^verbatim>\<open>state_prep_dag(sample)\<close> on the recovery
  side".
\<close>

definition full_circuit :: "qae \<Rightarrow> real list \<Rightarrow> nat \<Rightarrow> error + Program" where
  "full_circuit q theta i =
     bind_e (getitem (state_prep_circuits q) i) (\<lambda>sp.
     bind_e (training_circuit_of q theta) (\<lambda>tr.
     bind_e (training_circuit_dag_of q theta) (\<lambda>trd.
     bind_e (getitem (state_prep_circuits_dag q) i) (\<lambda>spd.
       Inr (sp @ tr @ trd @ spd)))))"

text \<open>
  Modelled from the spec: one backend execution per data sample of the training split,
  sequentially (section 5), each reduced to its loss.
\<close>

fun sample_losses :: "qae \<Rightarrow> real list \<Rightarrow> nat list \<Rightarrow> real list \<Rightarrow> (real list, engine_state) action" where
  "sample_losses q theta [] acc st = (Inr acc, st)"
| "sample_losses q theta (i # rest) acc st =
     (case full_circuit q theta i of
        Inl e \<Rightarrow> (Inl e, st)
      | Inr circuit \<Rightarrow>
          (case estimate_loss (cxn q) (target_outcome q) (qae_n_shots q) circuit st of
             (Inl e, st') \<Rightarrow> (Inl e, st')
           | (Inr l, st') \<Rightarrow> sample_losses q theta rest (acc @ [l]) st'))"

text \<open>
  Modelled from the spec: the aggregation of per-sample losses, their arithmetic mean.
  The specification does not say what the mean over an empty training split is; the
  quotient below is then 0 by convention, and no statement of this theory rests on it.
\<close>

definition mean :: "real list \<Rightarrow> real" where
  "mean xs = sum_list xs / real (length xs)"

text \<open>
  Modelled from the spec: the mean training loss at a parameter vector, step (a) of
  optimization mode and the quantity scan mode evaluates; each evaluation advances the
  iteration counter.
\<close>

definition compute_loss_function :: "qae \<Rightarrow> real list \<Rightarrow> (real, engine_state) action" where
  "compute_loss_function q theta st =
     (case sample_losses q theta (train_indices q) [] st of
        (Inl e, st') \<Rightarrow> (Inl e, st')
      | (Inr losses, st') \<Rightarrow> (Inr (mean losses), st'\<lparr>iteration := Suc (iteration st')\<rparr>))"

text \<open>
  Modelled from the spec: optimization mode (4.4), steps (a) to (e). The optimizer is a
  black box that, from the parameters and their loss, proposes new parameters or signals
  convergence; the loop also ends when the budget of evaluations is used up.
\<close>

fun optimize_loop :: "nat \<Rightarrow> qae \<Rightarrow> optimizer \<Rightarrow> real list \<Rightarrow> (real list, engine_state) action" where
  "optimize_loop 0 q propose theta st = (Inr theta, st)"
| "optimize_loop (Suc budget) q propose theta st =
     (case compute_loss_function q theta st of
        (Inl e, st') \<Rightarrow> (Inl e, st')
      | (Inr loss, st') \<Rightarrow>
          (case propose theta loss of
             None \<Rightarrow> (Inr theta, st')
           | Some theta' \<Rightarrow> optimize_loop budget q propose theta' st'))"

text \<open>
  Modelled from the spec: the failure semantics of 4.4, "a malformed ParameterVector
  length (mismatched to the ansatz's expected parameter count) is a fatal configuration
  error raised before any backend call".
\<close>

definition train :: "qae \<Rightarrow> optimizer \<Rightarrow> nat \<Rightarrow> real list \<Rightarrow> (real list, engine_state) action" where
  "train q propose budget initial_guess st =
     (if length initial_guess \<noteq> n_parameters q then (Inl ConfigurationError, st)
      else optimize_loop budget q propose initial_guess st)"

subsection \<open>Test doubles\<close>

text \<open>
  A backend that reports every shot as the all-zero outcome, an optimizer that converges
  at once, the demo's instance with two data samples, and loss functions for the scan
  whose value shows in which state they were called.
\<close>

definition stub_backend :: backend where
  "stub_backend circuit shots = Inr [([0, 0], shots)]"

definition stub_optimizer :: optimizer where
  "stub_optimizer theta loss = None"

definition demo_qae :: qae where
  "demo_qae = \<lparr>
     state_prep_circuits = [[RY 0 1, CNOT 1 0], [RY 1 1, CNOT 1 0]],
     training_circuit_of = training_circuit_lambda q_in,
     state_prep_circuits_dag = [[CNOT 1 2, RY 0 1], [CNOT 1 2, RY (- 1) 1]],
     training_circuit_dag_of = training_circuit_dag_lambda q_in q_latent q_refresh reset,
     train_indices = [0, 1],
     n_parameters = 1,
     cxn = stub_backend,
     target_outcome = [0, 0],
     qae_n_shots = n_shots \<rparr>"

definition stub_loss :: "real list \<Rightarrow> (real, nat) action" where
  "stub_loss v n = (Inr (sum_list v + real n), Suc n)"

definition stub_print :: "real \<Rightarrow> nat \<Rightarrow> nat" where
  "stub_print angle n = n"

definition stub_pure_loss :: "real list \<Rightarrow> (real, nat) action" where
  "stub_pure_loss v n = (Inr (- sum_list v), Suc n)"

section \<open>Properties of the circuit builders\<close>

lemma getitem_0_Cons: "getitem (x # xs) 0 = Inr x"
  by (simp add: getitem_def)

lemma getitem_1_Cons: "getitem (x # y # xs) (Suc 0) = Inr y"
  by (simp add: getitem_def)

lemma getitem_0_Nil: "getitem [] 0 = Inl IndexError"
  by (simp add: getitem_def)

lemma getitem_1_short: "length xs < 2 \<Longrightarrow> getitem xs (Suc 0) = Inl IndexError"
  by (simp add: getitem_def)

lemma bind_e_Inr: "bind_e (Inr x) f = f x"
  by (simp add: bind_e_def)

lemma bind_e_Inl: "bind_e (Inl e) f = Inl e"
  by (simp add: bind_e_def)

lemmas builder_defs =
  state_prep_circuit_def state_prep_circuit_dag_def
  training_circuit_def training_circuit_dag_def

lemma state_prep_circuit_Cons:
  "state_prep_circuit (p # ps) (q0 # q1 # qs) = Inr [RY p q1, CNOT q1 q0]"
  by (simp add: state_prep_circuit_def getitem_0_Cons getitem_1_Cons bind_e_Inr)

lemma state_prep_circuit_dag_Cons:
  "state_prep_circuit_dag (p # ps) (q0 # q1 # qs) = Inr [CNOT q1 q0, RY (- p) q1]"
  by (simp add: state_prep_circuit_dag_def getitem_0_Cons getitem_1_Cons bind_e_Inr)

lemma training_circuit_Cons:
  "training_circuit (th # ths) (q0 # q1 # qs) = Inr [RY ((- th) / 2) q0, CNOT q1 q0]"
  by (simp add: training_circuit_def getitem_0_Cons getitem_1_Cons bind_e_Inr)

lemma training_circuit_dag_Cons:
  "training_circuit_dag (th # ths) (q0 # q1 # qs) = Inr [CNOT q1 q0, RY (th / 2) q0]"
  by (simp add: training_circuit_dag_def getitem_0_Cons getitem_1_Cons bind_e_Inr)

text \<open>Entries of the parameter list after the first are never read.\<close>

lemma builders_read_first_parameter_only:
  "state_prep_circuit (p # ps) qs = state_prep_circuit [p] qs"
  "state_prep_circuit_dag (p # ps) qs = state_prep_circuit_dag [p] qs"
  "training_circuit (p # ps) qs = training_circuit [p] qs"
  "training_circuit_dag (p # ps) qs = training_circuit_dag [p] qs"
  by (simp_all add: builder_defs getitem_def)

text \<open>Every builder raises IndexError exactly when a list it indexes is too short.\<close>

lemma builders_raise:
  assumes "p = [] \<or> length qs < 2"
  shows "state_prep_circuit p qs = Inl IndexError"
    and "state_prep_circuit_dag p qs = Inl IndexError"
    and "training_circuit p qs = Inl IndexError"
    and "training_circuit_dag p qs = Inl IndexError"
  using assms
  by (auto simp: builder_defs getitem_def bind_e_def)

lemma args_cases:
  obtains (short) "p = [] \<or> length qs < 2"
  | (ok) x xs q0 q1 qs' where "p = x # xs" "qs = q0 # q1 # qs'"
proof (cases p)
  case Nil
  then show ?thesis using short by simp
next
  case (Cons x xs)
  show ?thesis
  proof (cases qs)
    case Nil
    then show ?thesis using short by simp
  next
    case outer: (Cons q0 r)
    show ?thesis
    proof (cases r)
      case Nil
      then show ?thesis using short outer by simp
    next
      case inner: (Cons q1 qs')
      then show ?thesis using ok Cons outer by simp
    qed
  qed
qed

lemma state_prep_dag_is_dagger:
  "state_prep_circuit_dag phi qs = map_sum id dagger (state_prep_circuit phi qs)"
proof (cases rule: args_cases [of phi qs])
  case short
  then show ?thesis by (simp add: builders_raise)
next
  case (ok x xs q0 q1 qs')
  then show ?thesis
    by (simp add: state_prep_circuit_Cons state_prep_circuit_dag_Cons dagger_def)
qed

lemma training_dag_is_dagger:
  "training_circuit_dag theta qs = map_sum id dagger (training_circuit theta qs)"
proof (cases rule: args_cases [of theta qs])
  case short
  then show ?thesis by (simp add: builders_raise)
next
  case (ok x xs q0 q1 qs')
  then show ?thesis
    by (simp add: training_circuit_Cons training_circuit_dag_Cons dagger_def)
qed

text \<open>
  C4. Each daggered builder returns the forward builder's gate sequence reversed, with
  every rotation angle negated (and raises exactly where the forward builder raises).
  On a non-empty parameter list and an index list \<open>q0, q1, \<dots>\<close> the four programs are
  \<open>[RY(phi[0], q1), CNOT(q1, q0)]\<close>, \<open>[CNOT(q1, q0), RY(-phi[0], q1)]\<close>,
  \<open>[RY(-theta[0]/2, q0), CNOT(q1, q0)]\<close> and \<open>[CNOT(q1, q0), RY(theta[0]/2, q0)]\<close>.
\<close>

theorem dag_builders_reverse_and_negate:
  "state_prep_circuit_dag phi qs = map_sum id dagger (state_prep_circuit phi qs)
   \<and> training_circuit_dag theta qs = map_sum id dagger (training_circuit theta qs)
   \<and> state_prep_circuit (p # ps) (q0 # q1 # qs') = Inr [RY p q1, CNOT q1 q0]
   \<and> state_prep_circuit_dag (p # ps) (q0 # q1 # qs') = Inr [CNOT q1 q0, RY (- p) q1]
   \<and> training_circuit (p # ps) (q0 # q1 # qs') = Inr [RY ((- p) / 2) q0, CNOT q1 q0]
   \<and> training_circuit_dag (p # ps) (q0 # q1 # qs') = Inr [CNOT q1 q0, RY (p / 2) q0]"
  by (intro conjI state_prep_dag_is_dagger training_dag_is_dagger
      state_prep_circuit_Cons state_prep_circuit_dag_Cons
      training_circuit_Cons training_circuit_dag_Cons)

lemma nonempty_args:
  assumes "theta \<noteq> []" and "2 \<le> length qs"
  obtains th ths q0 q1 qs' where "theta = th # ths" and "qs = q0 # q1 # qs'"
  using assms by (cases rule: args_cases [of theta qs]) auto

lemma cancel_training_then_dag:
  "cancel ([RY ((- th) / 2) q0, CNOT q1 q0] @ [CNOT q1 q0, RY (th / 2) q0]) = []"
  by (simp add: cancel_def)

lemma cancel_dag_then_training:
  "cancel ([CNOT q1 q0, RY (th / 2) q0] @ [RY ((- th) / 2) q0, CNOT q1 q0]) = []"
  by (simp add: cancel_def)

text \<open>
  C3. For every parameter vector with a first entry and every index list with at least
  two entries, the training circuit followed by its dagger on the same index list is
  \<open>RY(-theta[0]/2, q0), CNOT(q1, q0), CNOT(q1, q0), RY(theta[0]/2, q0)\<close>, and this
  sequence, like the one in the opposite order, cancels to the empty program: the two
  adjacent CNOTs cancel, then the two opposite rotations (in the opposite order the
  rotations first, then the CNOTs). Both builders raise IndexError on an empty parameter
  list, so there is no composite circuit to speak of in that case.
\<close>

theorem training_composed_with_dagger_cancels:
  assumes "theta \<noteq> []" and "2 \<le> length qs"
  shows "\<exists>c d. training_circuit theta qs = Inr c
           \<and> training_circuit_dag theta qs = Inr d
           \<and> c @ d = [RY ((- (theta ! 0)) / 2) (qs ! 0), CNOT (qs ! 1) (qs ! 0),
                      CNOT (qs ! 1) (qs ! 0), RY ((theta ! 0) / 2) (qs ! 0)]
           \<and> cancel (c @ d) = []
           \<and> cancel (d @ c) = []"
proof -
  from assms obtain th ths q0 q1 qs' where
    shape: "theta = th # ths" "qs = q0 # q1 # qs'"
    by (rule nonempty_args)
  let ?c = "[RY ((- th) / 2) q0, CNOT q1 q0]"
  let ?d = "[CNOT q1 q0, RY (th / 2) q0]"
  have c: "training_circuit theta qs = Inr ?c"
    unfolding shape by (rule training_circuit_Cons)
  have d: "training_circuit_dag theta qs = Inr ?d"
    unfolding shape by (rule training_circuit_dag_Cons)
  have seq: "?c @ ?d = [RY ((- (theta ! 0)) / 2) (qs ! 0), CNOT (qs ! 1) (qs ! 0),
                       CNOT (qs ! 1) (qs ! 0), RY ((theta ! 0) / 2) (qs ! 0)]"
    by (simp add: shape)
  from c d seq cancel_training_then_dag [of th q0 q1] cancel_dag_then_training [of q1 q0 th]
  show ?thesis by blast
qed

theorem training_composed_with_dagger_cancels_witness:
  "[1 :: real] \<noteq> [] \<and> 2 \<le> length [0 :: nat, 1]
   \<and> (\<exists>c d. training_circuit [1] [0, 1] = Inr c
          \<and> training_circuit_dag [1] [0, 1] = Inr d
          \<and> c @ d = [RY ((- 1) / 2) 0, CNOT 1 0, CNOT 1 0, RY (1 / 2) 0]
          \<and> cancel (c @ d) = []
          \<and> cancel (d @ c) = [])"
  using training_composed_with_dagger_cancels [of "[1]" "[0, 1]"]
  by simp

section \<open>Properties of the qubit labelling\<close>

lemma mset_order_qubit_labels: "mset (order_qubit_labels d) = mset (map snd d)"
  by (simp add: order_qubit_labels_def)

lemma set_order_qubit_labels: "set (order_qubit_labels d) = set (map snd d)"
  by (simp add: order_qubit_labels_def)

lemma distinct_order_qubit_labels:
  "distinct (order_qubit_labels d) \<longleftrightarrow> distinct (map snd d)"
  using mset_order_qubit_labels [of d] by (rule mset_eq_imp_distinct_iff)

lemma values_update: "set (map snd (AList.update k v al)) \<subseteq> insert v (set (map snd al))"
  by (induction al) auto

lemma distinct_values_update:
  "distinct (map snd al) \<Longrightarrow> v \<notin> set (map snd al) \<Longrightarrow> distinct (map snd (AList.update k v al))"
proof (induction al)
  case Nil
  then show ?case by simp
next
  case (Cons p al)
  then show ?case using values_update [of k v al] by (cases p) auto
qed

lemma merge_values:
  "set (map snd (merge_two_dicts x y)) \<subseteq> set (map snd x) \<union> set (map snd y)"
proof (induction y arbitrary: x)
  case Nil
  then show ?case by (simp add: merge_two_dicts_def)
next
  case (Cons p y)
  obtain k v where p: "p = (k, v)" by (cases p)
  have "merge_two_dicts x (p # y) = merge_two_dicts (AList.update k v x) y"
    by (simp add: merge_two_dicts_def p)
  then show ?case using Cons.IH [of "AList.update k v x"] values_update [of k v x]
    by (auto simp: p)
qed

lemma merge_distinct_values:
  "distinct (map snd x) \<Longrightarrow> distinct (map snd y) \<Longrightarrow>
   set (map snd x) \<inter> set (map snd y) = {} \<Longrightarrow>
   distinct (map snd (merge_two_dicts x y))"
proof (induction y arbitrary: x)
  case Nil
  then show ?case by (simp add: merge_two_dicts_def)
next
  case (Cons p y)
  obtain k v where p: "p = (k, v)" by (cases p)
  have step: "merge_two_dicts x (p # y) = merge_two_dicts (AList.update k v x) y"
    by (simp add: merge_two_dicts_def p)
  have v_new: "v \<notin> set (map snd x)" using Cons.prems(3) by (auto simp: p)
  have d1: "distinct (map snd (AList.update k v x))"
    using Cons.prems(1) v_new by (rule distinct_values_update)
  have d2: "distinct (map snd y)" using Cons.prems(2) by simp
  have v_y: "v \<notin> set (map snd y)" using Cons.prems(2) by (simp add: p)
  have d3: "set (map snd (AList.update k v x)) \<inter> set (map snd y) = {}"
  proof -
    have "set (map snd (AList.update k v x)) \<subseteq> insert v (set (map snd x))"
      by (rule values_update)
    moreover have "set (map snd x) \<inter> set (map snd y) = {}"
      using Cons.prems(3) by (auto simp: p)
    ultimately show ?thesis using v_y by blast
  qed
  show ?case unfolding step using d1 d2 d3 by (rule Cons.IH)
qed

lemma merge_distinct_keys:
  "distinct (map fst x) \<Longrightarrow> distinct (map fst (merge_two_dicts x y))"
proof (induction y arbitrary: x)
  case Nil
  then show ?case by (simp add: merge_two_dicts_def)
next
  case (Cons p y)
  obtain k v where p: "p = (k, v)" by (cases p)
  have step: "merge_two_dicts x (p # y) = merge_two_dicts (AList.update k v x) y"
    by (simp add: merge_two_dicts_def p)
  show ?case unfolding step using Cons.prems by (intro Cons.IH AList.distinct_update)
qed

lemma map_of_merge:
  "distinct (map fst y) \<Longrightarrow> map_of (merge_two_dicts x y) = map_of x ++ map_of y"
proof (induction y arbitrary: x)
  case Nil
  then show ?case by (simp add: merge_two_dicts_def)
next
  case (Cons p y)
  obtain k v where p: "p = (k, v)" by (cases p)
  have step: "merge_two_dicts x (p # y) = merge_two_dicts (AList.update k v x) y"
    by (simp add: merge_two_dicts_def p)
  have k_new: "k \<notin> dom (map_of y)" using Cons.prems by (simp add: p dom_map_of_conv_image_fst)
  have "map_of (merge_two_dicts x (p # y)) = (map_of x)(k \<mapsto> v) ++ map_of y"
    unfolding step using Cons.prems by (simp only: Cons.IH AList.update_conv' distinct.simps list.map)
  also have "\<dots> = (map_of x ++ map_of y)(k \<mapsto> v)"
    using k_new by (rule map_add_upd_left)
  also have "\<dots> = map_of x ++ map_of (p # y)"
    by (simp add: p)
  finally show ?case .
qed

lemma sort_key_same_dict:
  fixes d d' :: "('k::linorder \<times> 'v) list"
  assumes "same_dict d d'"
  shows "sort_key fst d = sort_key fst d'"
proof -
  from assms have dk: "distinct (map fst d)" and dk': "distinct (map fst d')"
    and m: "map_of d = map_of d'"
    by (simp_all add: same_dict_def)
  have s: "set d = set d'" using dk dk' m by (simp add: map_of_inject_set)
  have inj: "inj_on fst (set (sort_key fst d) \<union> set (sort_key fst d'))"
    using dk s by (simp add: distinct_map)
  show ?thesis
  proof (rule map_sorted_distinct_set_unique [OF inj])
    show "sorted (map fst (sort_key fst d))" by (rule sorted_sort_key)
    show "sorted (map fst (sort_key fst d'))" by (rule sorted_sort_key)
    show "distinct (map fst (sort_key fst d))" using dk by (simp add: distinct_map)
    show "distinct (map fst (sort_key fst d'))" using dk' by (simp add: distinct_map)
    show "set (sort_key fst d) = set (sort_key fst d')" using s by simp
  qed
qed

lemma order_qubit_labels_same_dict:
  "same_dict d d' \<Longrightarrow> order_qubit_labels d = order_qubit_labels d'"
  by (simp add: order_qubit_labels_def sort_key_same_dict)

lemma merge_same_dict:
  assumes "same_dict x x'" and "same_dict y y'"
  shows "same_dict (merge_two_dicts x y) (merge_two_dicts x' y')"
  using assms by (simp add: same_dict_def merge_distinct_keys map_of_merge)

text \<open>
  For a dictionary, sorting the items by label and reading off the indices is the same as
  sorting the labels and looking each one up.
\<close>

lemma sort_map_fst: "sort (map fst d) = map fst (sort_key fst d)"
  by (rule properties_for_sort) simp_all

lemma order_qubit_labels_lookup:
  assumes "distinct (map fst d)"
  shows "order_qubit_labels d = map (\<lambda>k. the (map_of d k)) (sort (map fst d))"
proof -
  have "map snd (sort_key fst d) = map (\<lambda>p. the (map_of d (fst p))) (sort_key fst d)"
  proof (rule map_cong [OF refl])
    fix p assume "p \<in> set (sort_key fst d)"
    then have "(fst p, snd p) \<in> set d" by simp
    with assms have "map_of d (fst p) = Some (snd p)" by (rule map_of_is_SomeI)
    then show "snd p = the (map_of d (fst p))" by simp
  qed
  then show ?thesis by (simp add: order_qubit_labels_def sort_map_fst comp_def)
qed

lemma labeling_distinct:
  assumes "QubitMapping_inv qi" "QubitMapping_inv ql" "QubitMapping_inv qr"
    and "role_disjoint qi ql qr"
  shows "distinct (compression_indices qi @ recovery_indices ql qr rst)"
proof -
  let ?m = "merge_two_dicts ql qr"
  have dm: "distinct (map snd ?m)"
    using assms by (intro merge_distinct_values) (simp_all add: QubitMapping_inv_def role_disjoint_def)
  have sub: "set (map snd ?m) \<subseteq> set (map snd ql) \<union> set (map snd qr)"
    by (rule merge_values)
  have disj: "set (map snd qi) \<inter> set (map snd ?m) = {}"
    using sub assms(4) unfolding role_disjoint_def by blast
  have di: "distinct (map snd qi)" using assms(1) by (simp add: QubitMapping_inv_def)
  have "distinct (order_qubit_labels qi @ order_qubit_labels ?m)"
    using di dm disj
    by (simp only: distinct_append distinct_order_qubit_labels set_order_qubit_labels simp_thms)
  moreover have "distinct (order_qubit_labels qi @ rev (order_qubit_labels ?m))"
    using di dm disj
    by (simp only: distinct_append distinct_rev set_rev distinct_order_qubit_labels
        set_order_qubit_labels simp_thms)
  ultimately show ?thesis
    by (simp add: compression_indices_def recovery_indices_def Let_def)
qed

lemma labeling_same_dict:
  assumes "same_dict qi qi'" "same_dict ql ql'" "same_dict qr qr'"
  shows "compression_indices qi' = compression_indices qi"
    and "recovery_indices ql' qr' rst = recovery_indices ql qr rst"
proof -
  show "compression_indices qi' = compression_indices qi"
    using order_qubit_labels_same_dict [OF assms(1)] by (simp add: compression_indices_def)
  have "order_qubit_labels (merge_two_dicts ql qr) = order_qubit_labels (merge_two_dicts ql' qr')"
    by (intro order_qubit_labels_same_dict merge_same_dict assms)
  then show "recovery_indices ql' qr' rst = recovery_indices ql qr rst"
    by (simp add: recovery_indices_def Let_def)
qed

lemma demo_labeling:
  "compression_indices q_in = [0, 1]"
  "recovery_indices q_latent q_refresh reset = [2, 1]"
  by (simp_all add: compression_indices_def recovery_indices_def order_qubit_labels_def
      merge_two_dicts_def q_in_def q_latent_def q_refresh_def reset_def)

lemma demo_not_role_disjoint:
  "\<not> role_disjoint q_in q_latent q_refresh"
  "\<not> distinct (compression_indices q_in @ recovery_indices q_latent q_refresh reset)"
  by (simp_all add: demo_labeling) (simp add: role_disjoint_def q_in_def q_latent_def)

text \<open>
  Each sequence on its own is free of duplicates already when the indices are unique
  within the input group and within the merged latent and refresh groups; this covers
  the demo, whose latent qubit is one of its input qubits.
\<close>

lemma labeling_each_distinct:
  assumes "distinct (map snd qi)" and "distinct (map snd ql)" and "distinct (map snd qr)"
    and "set (map snd ql) \<inter> set (map snd qr) = {}"
  shows "distinct (compression_indices qi)" and "distinct (recovery_indices ql qr rst)"
proof -
  show "distinct (compression_indices qi)"
    using assms(1) by (simp only: compression_indices_def distinct_order_qubit_labels)
  have "distinct (map snd (merge_two_dicts ql qr))"
    using assms(2-4) by (rule merge_distinct_values)
  then have "distinct (order_qubit_labels (merge_two_dicts ql qr))"
    by (simp only: distinct_order_qubit_labels)
  then show "distinct (recovery_indices ql qr rst)"
    by (simp add: recovery_indices_def Let_def)
qed

lemma demo_each_distinct:
  "distinct (compression_indices q_in)" "distinct (recovery_indices q_latent q_refresh reset)"
  by (simp_all add: demo_labeling)

text \<open>The circuits of cell 14 in the demo: the dagger acts on the recovery indices.\<close>

lemma demo_training_lambdas:
  "training_circuit_lambda q_in (th # ths) = Inr [RY ((- th) / 2) 0, CNOT 1 0]"
  "training_circuit_dag_lambda q_in q_latent q_refresh reset (th # ths)
     = Inr [CNOT 1 2, RY (th / 2) 2]"
  using demo_labeling
  by (simp_all add: training_circuit_lambda_def training_circuit_dag_lambda_def dag_indices_def
      reset_def training_circuit_Cons training_circuit_dag_Cons)

text \<open>
  C1. For qubit mappings that satisfy the invariant of the data model (unique labels,
  unique physical indices within a group) and are role-disjoint (no physical index in two
  groups), \<open>compression_indices\<close> followed by \<open>recovery_indices\<close> has no duplicate, with or
  without reset. The two sequences are determined by the mappings alone: dictionaries
  with the same entries give the same sequences, whatever the insertion order. (That a
  repeated call on the very same dictionaries gives the same sequences holds of every
  function of this development.) The demo mapping itself is not role-disjoint: index 1
  is an input and a latent qubit, and is in both sequences, see \<open>demo_not_role_disjoint\<close>.
\<close>

theorem qubit_labeling_distinct_and_deterministic:
  assumes "QubitMapping_inv qi" and "QubitMapping_inv ql" and "QubitMapping_inv qr"
    and "role_disjoint qi ql qr"
  shows "distinct (compression_indices qi @ recovery_indices ql qr rst)
       \<and> (same_dict qi qi' \<and> same_dict ql ql' \<and> same_dict qr qr' \<longrightarrow>
            compression_indices qi' = compression_indices qi
          \<and> recovery_indices ql' qr' rst = recovery_indices ql qr rst)"
  using labeling_distinct [OF assms] labeling_same_dict [of qi qi' ql ql' qr qr']
  by blast

theorem qubit_labeling_distinct_and_deterministic_witness:
  "QubitMapping_inv [(''q0'', 0), (''q1'', 1)]
   \<and> QubitMapping_inv [(''q2'', 2)]
   \<and> QubitMapping_inv [(''q3'', 3)]
   \<and> role_disjoint [(''q0'', 0), (''q1'', 1)] [(''q2'', 2)] [(''q3'', 3)]
   \<and> same_dict [(''q0'', 0), (''q1'', 1)] [(''q1'', 1), (''q0'', 0 :: nat)]
   \<and> same_dict [(''q2'', 2 :: nat)] [(''q2'', 2)]
   \<and> same_dict [(''q3'', 3 :: nat)] [(''q3'', 3)]
   \<and> distinct (compression_indices [(''q0'', 0), (''q1'', 1)]
        @ recovery_indices [(''q2'', 2)] [(''q3'', 3)] False)
   \<and> compression_indices [(''q1'', 1), (''q0'', 0)] = compression_indices [(''q0'', 0), (''q1'', 1)]
   \<and> compression_indices [(''q0'', 0), (''q1'', 1)] = [0, 1]
   \<and> recovery_indices [(''q2'', 2)] [(''q3'', 3)] False = [3, 2]"
proof -
  have inv: "QubitMapping_inv [(''q0'', 0), (''q1'', 1)]" "QubitMapping_inv [(''q2'', 2)]"
    "QubitMapping_inv [(''q3'', 3)]"
    by (simp_all add: QubitMapping_inv_def)
  have rd: "role_disjoint [(''q0'', 0), (''q1'', 1)] [(''q2'', 2)] [(''q3'', 3)]"
    by (simp add: role_disjoint_def)
  have sd: "same_dict [(''q0'', 0), (''q1'', 1)] [(''q1'', 1), (''q0'', 0 :: nat)]"
    "same_dict [(''q2'', 2 :: nat)] [(''q2'', 2)]" "same_dict [(''q3'', 3 :: nat)] [(''q3'', 3)]"
    by (auto simp: same_dict_def)
  have vals: "compression_indices [(''q0'', 0), (''q1'', 1)] = [0, 1]"
    "recovery_indices [(''q2'', 2)] [(''q3'', 3)] False = [3, 2]"
    by (simp_all add: compression_indices_def recovery_indices_def order_qubit_labels_def
        merge_two_dicts_def)
  from qubit_labeling_distinct_and_deterministic [OF inv rd,
      of False "[(''q1'', 1), (''q0'', 0)]" "[(''q2'', 2)]" "[(''q3'', 3)]"] inv rd sd vals
  show ?thesis by blast
qed

text \<open>
  As worded, C2 has the recovery sequence used unreversed for the decode-side circuits
  when \<open>reset = True\<close>. Cells 10 and 14 do otherwise: with reset they build the daggered
  circuits on \<open>compression_indices\<close>. On the demo mappings with \<open>reset = True\<close> the
  index list used is \<open>[0, 1]\<close>, while the unreversed recovery sequence is \<open>[1, 2]\<close>, and
  the daggered training circuit is not the one built on the recovery sequence.
\<close>

theorem decode_indices_with_reset_counterexample:
  "dag_indices q_in q_latent q_refresh True = [0, 1]
   \<and> recovery_indices q_latent q_refresh True = [1, 2]
   \<and> order_qubit_labels (merge_two_dicts q_latent q_refresh) = [1, 2]
   \<and> dag_indices q_in q_latent q_refresh True
        \<noteq> order_qubit_labels (merge_two_dicts q_latent q_refresh)
   \<and> training_circuit_dag_lambda q_in q_latent q_refresh True [1]
        = Inr [CNOT 1 0, RY (1 / 2) 0]
   \<and> training_circuit_dag_lambda q_in q_latent q_refresh True [1]
        \<noteq> training_circuit_dag [1] (recovery_indices q_latent q_refresh True)"
  by (simp add: training_circuit_dag_lambda_def dag_indices_def compression_indices_def
      recovery_indices_def order_qubit_labels_def merge_two_dicts_def
      q_in_def q_latent_def q_refresh_def training_circuit_dag_Cons)

text \<open>
  C2, as amended. Without reset, \<open>recovery_indices\<close> is the reversal of the
  ascending-label ordering of the merged latent and refresh mapping, and it is the index
  list on which the daggered circuits are built. With reset, \<open>recovery_indices\<close> is left
  unreversed, and the daggered circuits are built on \<open>compression_indices\<close> instead. In
  the demo, \<open>reset = False\<close>, the ascending-label ordering of the merged mapping is
  \<open>[1, 2]\<close> and the daggered circuits are built on \<open>[2, 1]\<close>.
\<close>

theorem recovery_indices_reversed_iff_no_reset:
  "recovery_indices ql qr False = rev (order_qubit_labels (merge_two_dicts ql qr))
   \<and> recovery_indices ql qr True = order_qubit_labels (merge_two_dicts ql qr)
   \<and> dag_indices qi ql qr False = rev (order_qubit_labels (merge_two_dicts ql qr))
   \<and> dag_indices qi ql qr True = order_qubit_labels qi
   \<and> training_circuit_dag_lambda qi ql qr False param
        = training_circuit_dag param (rev (order_qubit_labels (merge_two_dicts ql qr)))
   \<and> training_circuit_dag_lambda qi ql qr True param
        = training_circuit_dag param (order_qubit_labels qi)
   \<and> reset = False
   \<and> order_qubit_labels (merge_two_dicts q_latent q_refresh) = [1, 2]
   \<and> dag_indices q_in q_latent q_refresh reset = [2, 1]"
  by (simp add: training_circuit_dag_lambda_def recovery_indices_def dag_indices_def
      compression_indices_def order_qubit_labels_def merge_two_dicts_def
      q_latent_def q_refresh_def reset_def)

text \<open>
  C10. The reversal applied when \<open>reset = False\<close> only permutes the sequence: the
  multiset of physical indices is the same with and without it, and is the multiset of
  the indices of the merged mapping, one occurrence for each label; the lengths agree
  and position \<open>i\<close> of the reversed sequence holds what position \<open>n - 1 - i\<close> of the
  unreversed one holds; reversing again gives back the original. When the merged
  mapping assigns distinct indices to its labels, every index of the mapping occurs
  exactly once in either sequence.
\<close>

theorem recovery_reversal_is_permutation:
  "recovery_indices ql qr False = rev (recovery_indices ql qr True)
   \<and> mset (recovery_indices ql qr False) = mset (recovery_indices ql qr True)
   \<and> mset (recovery_indices ql qr True) = mset (map snd (merge_two_dicts ql qr))
   \<and> length (recovery_indices ql qr False) = length (recovery_indices ql qr True)
   \<and> (\<forall>i < length (recovery_indices ql qr True).
        recovery_indices ql qr False ! i
        = recovery_indices ql qr True ! (length (recovery_indices ql qr True) - 1 - i))
   \<and> rev (recovery_indices ql qr False) = recovery_indices ql qr True
   \<and> rev (rev (recovery_indices ql qr False)) = recovery_indices ql qr False
   \<and> (distinct (map snd (merge_two_dicts ql qr)) \<longrightarrow>
        (\<forall>i \<in> set (map snd (merge_two_dicts ql qr)).
           count_list (recovery_indices ql qr True) i = 1
         \<and> count_list (recovery_indices ql qr False) i = 1))"
proof -
  let ?r = "order_qubit_labels (merge_two_dicts ql qr)"
  have t: "recovery_indices ql qr True = ?r" and f: "recovery_indices ql qr False = rev ?r"
    by (simp_all add: recovery_indices_def)
  have once: "count_list ?r i = 1 \<and> count_list (rev ?r) i = 1"
    if d: "distinct (map snd (merge_two_dicts ql qr))"
      and i: "i \<in> set (map snd (merge_two_dicts ql qr))" for i
  proof -
    have dr: "distinct ?r" using d by (simp only: distinct_order_qubit_labels)
    have ir: "i \<in> set ?r" using i by (simp only: set_order_qubit_labels)
    have "count (mset ?r) i = 1" using dr ir by (simp add: distinct_count_atmost_1)
    then show ?thesis by (simp add: count_mset [symmetric] del: count_mset)
  qed
  show ?thesis
    unfolding t f
    by (intro conjI allI impI ballI) (simp_all add: mset_order_qubit_labels rev_nth once)
qed

theorem recovery_reversal_is_permutation_witness:
  "distinct (map snd (merge_two_dicts q_latent q_refresh))
   \<and> 1 \<in> set (map snd (merge_two_dicts q_latent q_refresh))
   \<and> 0 < length (recovery_indices q_latent q_refresh True)
   \<and> recovery_indices q_latent q_refresh True = [1, 2]
   \<and> recovery_indices q_latent q_refresh False = [2, 1]
   \<and> mset (recovery_indices q_latent q_refresh False) = mset (recovery_indices q_latent q_refresh True)
   \<and> recovery_indices q_latent q_refresh False ! 0 = recovery_indices q_latent q_refresh True ! 1
   \<and> count_list (recovery_indices q_latent q_refresh True) 1 = 1
   \<and> count_list (recovery_indices q_latent q_refresh False) 1 = 1"
proof -
  have m: "merge_two_dicts q_latent q_refresh = [(''q1'', 1), (''q2'', 2)]"
    by (simp add: merge_two_dicts_def q_latent_def q_refresh_def)
  have d: "distinct (map snd (merge_two_dicts q_latent q_refresh))"
    and i: "1 \<in> set (map snd (merge_two_dicts q_latent q_refresh))"
    by (simp_all add: m)
  have v: "recovery_indices q_latent q_refresh True = [1, 2]"
    "recovery_indices q_latent q_refresh False = [2, 1]"
    by (simp_all add: recovery_indices_def order_qubit_labels_def m)
  have n: "0 < length (recovery_indices q_latent q_refresh True)"
    by (simp add: v)
  from recovery_reversal_is_permutation [of q_latent q_refresh] d i n
  show ?thesis by (simp add: v m)
qed

section \<open>Frame of the circuit builders\<close>

lemmas obj_defs =
  bind_a_def return_a_def new_Program_def iadd_Program_def float_getitem_def int_getitem_def
  lookup_def frame_ok_def gates_of_def fresh_result_def

lemma lookup_SomeD: "lookup s r = Some v \<Longrightarrow> r < length (objs s) \<and> objs s ! r = v"
  by (simp add: lookup_def split: if_splits)

lemma state_prep_pure:
  assumes "lookup s a = Some (FloatList ps)" and "lookup s b = Some (IntList qs)"
  shows "pure_construction state_prep_circuit_obj state_prep_circuit a b ps qs s"
proof -
  note la = lookup_SomeD [OF assms(1)] and lb = lookup_SomeD [OF assms(2)]
  show ?thesis
  proof (cases rule: args_cases [of ps qs])
    case short
    then show ?thesis using la lb
      unfolding pure_construction_def
      by (auto simp: builders_raise state_prep_circuit_obj_def obj_defs nth_append getitem_def)
  next
    case (ok x xs q0 q1 qs')
    then show ?thesis using la lb
      unfolding pure_construction_def
      by (auto simp: state_prep_circuit_Cons state_prep_circuit_obj_def obj_defs nth_append getitem_def)
  qed
qed


lemma state_prep_dag_pure:
  assumes "lookup s a = Some (FloatList ps)" and "lookup s b = Some (IntList qs)"
  shows "pure_construction state_prep_circuit_dag_obj state_prep_circuit_dag a b ps qs s"
proof -
  note la = lookup_SomeD [OF assms(1)] and lb = lookup_SomeD [OF assms(2)]
  show ?thesis
  proof (cases rule: args_cases [of ps qs])
    case short
    then show ?thesis using la lb
      unfolding pure_construction_def
      by (auto simp: builders_raise state_prep_circuit_dag_obj_def obj_defs nth_append getitem_def)
  next
    case (ok x xs q0 q1 qs')
    then show ?thesis using la lb
      unfolding pure_construction_def
      by (auto simp: state_prep_circuit_dag_Cons state_prep_circuit_dag_obj_def obj_defs
          nth_append getitem_def)
  qed
qed

lemma training_pure:
  assumes "lookup s a = Some (FloatList ps)" and "lookup s b = Some (IntList qs)"
  shows "pure_construction training_circuit_obj training_circuit a b ps qs s"
proof -
  note la = lookup_SomeD [OF assms(1)] and lb = lookup_SomeD [OF assms(2)]
  show ?thesis
  proof (cases rule: args_cases [of ps qs])
    case short
    then show ?thesis using la lb
      unfolding pure_construction_def
      by (auto simp: builders_raise training_circuit_obj_def obj_defs nth_append getitem_def)
  next
    case (ok x xs q0 q1 qs')
    then show ?thesis using la lb
      unfolding pure_construction_def
      by (auto simp: training_circuit_Cons training_circuit_obj_def obj_defs nth_append getitem_def)
  qed
qed

lemma training_dag_pure:
  assumes "lookup s a = Some (FloatList ps)" and "lookup s b = Some (IntList qs)"
  shows "pure_construction training_circuit_dag_obj training_circuit_dag a b ps qs s"
proof -
  note la = lookup_SomeD [OF assms(1)] and lb = lookup_SomeD [OF assms(2)]
  show ?thesis
  proof (cases rule: args_cases [of ps qs])
    case short
    then show ?thesis using la lb
      unfolding pure_construction_def
      by (auto simp: builders_raise training_circuit_dag_obj_def obj_defs nth_append getitem_def)
  next
    case (ok x xs q0 q1 qs')
    then show ?thesis using la lb
      unfolding pure_construction_def
      by (auto simp: training_circuit_dag_Cons training_circuit_dag_obj_def obj_defs
          nth_append getitem_def)
  qed
qed

lemma frame_ok_lookup:
  assumes "frame_ok s s'" and "lookup s r = Some v"
  shows "lookup s' r = Some v"
proof -
  from assms(2) have r: "r < length (objs s)" and v: "objs s ! r = v"
    by (simp_all add: lookup_def split: if_splits)
  from assms(1) have t: "take (length (objs s)) (objs s') = objs s"
    by (simp add: frame_ok_def)
  have "length (take (length (objs s)) (objs s')) = length (objs s)"
    by (simp only: t)
  then have le: "length (objs s) \<le> length (objs s')" by simp
  have "objs s' ! r = take (length (objs s)) (objs s') ! r" using r by simp
  then have "objs s' ! r = v" by (simp only: t v)
  with r le show ?thesis by (simp add: lookup_def)
qed

lemma pure_twice:
  assumes pure: "\<And>s. lookup s a = Some (FloatList ps) \<Longrightarrow> lookup s b = Some (IntList qs) \<Longrightarrow>
                   pure_construction build f a b ps qs s"
    and la: "lookup s a = Some (FloatList ps)" and lb: "lookup s b = Some (IntList qs)"
  shows "two_calls_agree build a b s"
proof -
  obtain r1 s1 where first: "build a b s = (r1, s1)" by (cases "build a b s")
  obtain r2 s2 where second: "build a b s1 = (r2, s2)" by (cases "build a b s1")
  from pure [OF la lb] first
  have f1: "frame_ok s s1" and n1: "fresh_result s (r1, s1)" and g1: "gates_of (r1, s1) = f ps qs"
    by (simp_all add: pure_construction_def)
  have la1: "lookup s1 a = Some (FloatList ps)" and lb1: "lookup s1 b = Some (IntList qs)"
    using f1 la lb by (auto intro: frame_ok_lookup)
  from pure [OF la1 lb1] second
  have f2: "frame_ok s1 s2" and n2: "fresh_result s1 (r2, s2)" and g2: "gates_of (r2, s2) = f ps qs"
    by (simp_all add: pure_construction_def)
  have same: "gates_of (r2, s2) = gates_of (r1, s1)" using g1 g2 by simp
  have kept: "gates_of (r1, s2) = gates_of (r1, s1)"
  proof (cases r1)
    case (Inl e)
    then show ?thesis by (simp add: gates_of_def)
  next
    case (Inr c1)
    with n1 obtain v where "lookup s1 c1 = Some v" by (auto simp: fresh_result_def)
    moreover from this f2 have "lookup s2 c1 = Some v" by (auto intro: frame_ok_lookup)
    ultimately show ?thesis using Inr by (simp add: gates_of_def)
  qed
  have apart: "case (r1, r2) of (Inr c1, Inr c2) \<Rightarrow> c1 \<noteq> c2 | _ \<Rightarrow> True"
    using n1 n2 by (auto simp: fresh_result_def split: sum.splits)
  show ?thesis
    unfolding two_calls_agree_def Let_def first snd_conv second fst_conv
    using same kept apart by blast
qed

text \<open>
  C9. Each of the four circuit builders, called on a parameter list and an index list
  held in the store, returns a program object that did not exist before the call, leaves
  every object that existed (its two arguments, any circuit built earlier) as it was,
  issues no execution, and the gate sequence it returns is a function of the contents of
  its two arguments alone; a second call on the same arguments returns a different object
  with the same gate sequence and leaves the first program untouched.
\<close>

theorem circuit_builders_pure:
  assumes "lookup s a = Some (FloatList ps)" and "lookup s b = Some (IntList qs)"
  shows "pure_construction state_prep_circuit_obj state_prep_circuit a b ps qs s
       \<and> pure_construction state_prep_circuit_dag_obj state_prep_circuit_dag a b ps qs s
       \<and> pure_construction training_circuit_obj training_circuit a b ps qs s
       \<and> pure_construction training_circuit_dag_obj training_circuit_dag a b ps qs s
       \<and> two_calls_agree state_prep_circuit_obj a b s
       \<and> two_calls_agree state_prep_circuit_dag_obj a b s
       \<and> two_calls_agree training_circuit_obj a b s
       \<and> two_calls_agree training_circuit_dag_obj a b s"
  using assms
  by (intro conjI state_prep_pure state_prep_dag_pure training_pure training_dag_pure
      pure_twice [of a ps b qs state_prep_circuit_obj state_prep_circuit]
      pure_twice [of a ps b qs state_prep_circuit_dag_obj state_prep_circuit_dag]
      pure_twice [of a ps b qs training_circuit_obj training_circuit]
      pure_twice [of a ps b qs training_circuit_dag_obj training_circuit_dag])

lemma demo_run:
  "training_circuit_obj 0 1 demo_store =
     (Inr 3, \<lparr>objs = [FloatList [1], IntList [0, 1], ProgramObj [CNOT 0 1],
                      ProgramObj [RY ((- 1) / 2) 0, CNOT 1 0],
                      ProgramObj [RY ((- 1) / 2) 0], ProgramObj [CNOT 1 0]],
              executions = 0\<rparr>)"
  by (simp add: training_circuit_obj_def demo_store_def obj_defs getitem_def)

theorem circuit_builders_pure_witness:
  "lookup demo_store 0 = Some (FloatList [1])
   \<and> lookup demo_store 1 = Some (IntList [0, 1])
   \<and> pure_construction training_circuit_obj training_circuit 0 1 [1] [0, 1] demo_store
   \<and> two_calls_agree training_circuit_obj 0 1 demo_store
   \<and> gates_of (training_circuit_obj 0 1 demo_store) = Inr [RY ((- 1) / 2) 0, CNOT 1 0]"
proof -
  have l: "lookup demo_store 0 = Some (FloatList [1])" "lookup demo_store 1 = Some (IntList [0, 1])"
    by (simp_all add: lookup_def demo_store_def)
  have g: "gates_of (training_circuit_obj 0 1 demo_store) = Inr [RY ((- 1) / 2) 0, CNOT 1 0]"
    by (simp add: training_circuit_obj_def demo_store_def obj_defs getitem_def)
  from circuit_builders_pure [OF l] l g show ?thesis by simp
qed

section \<open>Properties of the scan\<close>

lemma scan_loop_prefix:
  assumes "theta_scan_loop clf pr thetas acc s = (Inr out, s')"
  shows "\<exists>ls. out = acc @ ls \<and> length ls = length thetas
         \<and> (\<forall>i < length thetas. \<exists>si si'.
               theta_scan_loop clf pr (take i thetas) acc s = (Inr (acc @ take i ls), si)
             \<and> clf [thetas ! i] (pr (thetas ! i) si) = (Inr (ls ! i), si'))"
  using assms
proof (induction thetas arbitrary: acc s)
  case Nil
  then show ?case by simp
next
  case (Cons angle rest)
  from Cons.prems obtain l s1 where
    call: "clf [angle] (pr angle s) = (Inr l, s1)"
    and rest: "theta_scan_loop clf pr rest (acc @ [l]) s1 = (Inr out, s')"
    by (auto split: prod.splits sum.splits)
  from Cons.IH [OF rest] obtain ls where
    out: "out = (acc @ [l]) @ ls" and len: "length ls = length rest"
    and pre: "\<And>i. i < length rest \<Longrightarrow> \<exists>si si'.
          theta_scan_loop clf pr (take i rest) (acc @ [l]) s1 = (Inr ((acc @ [l]) @ take i ls), si)
        \<and> clf [rest ! i] (pr (rest ! i) si) = (Inr (ls ! i), si')"
    by blast
  have step: "\<exists>si si'.
        theta_scan_loop clf pr (take i (angle # rest)) acc s = (Inr (acc @ take i (l # ls)), si)
      \<and> clf [(angle # rest) ! i] (pr ((angle # rest) ! i) si) = (Inr ((l # ls) ! i), si')"
    if "i < length (angle # rest)" for i
  proof (cases i)
    case 0
    then show ?thesis using call by simp
  next
    case (Suc j)
    with that have "j < length rest" by simp
    from pre [OF this] show ?thesis using call by (simp add: Suc)
  qed
  have "out = acc @ (l # ls)" by (simp add: out)
  moreover have "length (l # ls) = length (angle # rest)" by (simp add: len)
  ultimately show ?case using step by blast
qed

lemma scan_loop_total:
  assumes "\<And>v s. \<exists>l s'. clf v s = (Inr l, s')"
  shows "\<exists>out s'. theta_scan_loop clf pr thetas acc s = (Inr out, s')"
proof (induction thetas arbitrary: acc s)
  case Nil
  then show ?case by simp
next
  case (Cons angle rest)
  from assms obtain l s1 where "clf [angle] (pr angle s) = (Inr l, s1)" by blast
  then show ?case using Cons.IH [of "acc @ [l]" s1] by simp
qed

lemma scan_loop_function:
  assumes "\<And>v s. fst (clf v s) = Inr (f v)"
  shows "fst (theta_scan_loop clf pr thetas acc s) = Inr (acc @ map (\<lambda>angle. f [angle]) thetas)"
proof (induction thetas arbitrary: acc s)
  case Nil
  then show ?case by simp
next
  case (Cons angle rest)
  obtain r s1 where c: "clf [angle] (pr angle s) = (r, s1)" by (cases "clf [angle] (pr angle s)")
  with assms [of "[angle]" "pr angle s"] have "r = Inr (f [angle])" by simp
  then show ?case using c Cons.IH [of "acc @ [f [angle]]" s1] by simp
qed


text \<open>
  C8. The scan evaluates the loss function once per candidate, in the order of the
  input, and involves nothing else. When it returns, there are as many losses as
  candidates, the points plotted pair the \<open>i\<close>-th candidate with the \<open>i\<close>-th loss, and the
  \<open>i\<close>-th loss is what the loss function returned on the \<open>i\<close>-th candidate (as a
  one-parameter vector), called in the state the scan of the first \<open>i\<close> candidates left.
  It returns whenever the loss function never raises. When the loss is a function \<open>f\<close> of
  the parameters alone, the losses are \<open>f\<close> mapped over the candidates.
\<close>

theorem scan_preserves_input_order:
  "(landscape_scan clf pr thetas s = (Inr losses, s') \<longrightarrow>
       length losses = length thetas
     \<and> map fst (landscape_points thetas losses) = thetas
     \<and> map snd (landscape_points thetas losses) = losses
     \<and> (\<forall>i < length thetas. \<exists>si si'.
           landscape_scan clf pr (take i thetas) s = (Inr (take i losses), si)
         \<and> clf [thetas ! i] (pr (thetas ! i) si) = (Inr (losses ! i), si')))
   \<and> ((\<forall>v t. \<exists>l t'. clf v t = (Inr l, t')) \<longrightarrow>
        (\<exists>ls t. landscape_scan clf pr thetas s = (Inr ls, t)))
   \<and> ((\<forall>v t. fst (clf v t) = Inr (f v)) \<longrightarrow>
        fst (landscape_scan clf pr thetas s) = Inr (map (\<lambda>angle. f [angle]) thetas))"
proof (intro conjI impI)
  assume run: "landscape_scan clf pr thetas s = (Inr losses, s')"
  then have "theta_scan_loop clf pr thetas [] s = (Inr losses, s')"
    by (simp add: landscape_scan_def)
  from scan_loop_prefix [OF this] have len: "length losses = length thetas"
    and pre: "\<forall>i < length thetas. \<exists>si si'.
           theta_scan_loop clf pr (take i thetas) [] s = (Inr (take i losses), si)
         \<and> clf [thetas ! i] (pr (thetas ! i) si) = (Inr (losses ! i), si')"
    by auto
  show "length losses = length thetas" by (rule len)
  show "map fst (landscape_points thetas losses) = thetas"
    by (simp add: landscape_points_def len)
  show "map snd (landscape_points thetas losses) = losses"
    by (simp add: landscape_points_def len)
  show "\<forall>i < length thetas. \<exists>si si'.
           landscape_scan clf pr (take i thetas) s = (Inr (take i losses), si)
         \<and> clf [thetas ! i] (pr (thetas ! i) si) = (Inr (losses ! i), si')"
    using pre by (simp add: landscape_scan_def)
next
  assume "\<forall>v t. \<exists>l t'. clf v t = (Inr l, t')"
  then show "\<exists>ls t. landscape_scan clf pr thetas s = (Inr ls, t)"
    unfolding landscape_scan_def by (intro scan_loop_total) blast
next
  assume "\<forall>v t. fst (clf v t) = Inr (f v)"
  then show "fst (landscape_scan clf pr thetas s) = Inr (map (\<lambda>angle. f [angle]) thetas)"
    unfolding landscape_scan_def by (simp add: scan_loop_function)
qed

theorem scan_preserves_input_order_witness:
  "landscape_scan stub_loss stub_print [1, 2] 0 = (Inr [1, 3], 2)
   \<and> (\<forall>v t. \<exists>l t'. stub_loss v t = (Inr l, t'))
   \<and> (\<forall>v t. fst (stub_pure_loss v t) = Inr (- sum_list v))
   \<and> (1 :: nat) < length [1 :: real, 2]
   \<and> landscape_points [1, 2] [1, 3] = [(1, 1), (2, 3)]
   \<and> (\<exists>si si'. landscape_scan stub_loss stub_print (take 1 [1, 2]) 0 = (Inr (take 1 [1, 3]), si)
         \<and> stub_loss [[1, 2] ! 1] (stub_print ([1, 2] ! 1) si) = (Inr ([1, 3] ! 1), si'))
   \<and> fst (landscape_scan stub_pure_loss stub_print [1, 2] 0) = Inr [- 1, - 2]"
proof -
  have run: "landscape_scan stub_loss stub_print [1, 2] 0 = (Inr [1, 3], 2)"
    by (simp add: landscape_scan_def stub_loss_def stub_print_def)
  have tot: "\<forall>v t. \<exists>l t'. stub_loss v t = (Inr l, t')"
    by (simp add: stub_loss_def)
  have fn: "\<forall>v t. fst (stub_pure_loss v t) = Inr (- sum_list v)"
    by (simp add: stub_pure_loss_def)
  have pts: "landscape_points [1, 2] [1, 3] = [(1, 1), (2, 3)]"
    by (simp add: landscape_points_def)
  have "\<forall>i < length [1 :: real, 2]. \<exists>si si'.
           landscape_scan stub_loss stub_print (take i [1, 2]) 0 = (Inr (take i [1, 3]), si)
         \<and> stub_loss [[1, 2] ! i] (stub_print ([1, 2] ! i) si) = (Inr ([1, 3] ! i), si')"
    using scan_preserves_input_order [of stub_loss stub_print "[1, 2]" 0 "[1, 3]" 2 "\<lambda>v. 0"] run
    by blast
  from this [rule_format, of 1]
  have ith: "\<exists>si si'. landscape_scan stub_loss stub_print (take 1 [1, 2]) 0 = (Inr (take 1 [1, 3]), si)
         \<and> stub_loss [[1, 2] ! 1] (stub_print ([1, 2] ! 1) si) = (Inr ([1, 3] ! 1), si')"
    by simp
  have "fst (landscape_scan stub_pure_loss stub_print [1, 2] 0)
          = Inr (map (\<lambda>angle. - sum_list [angle]) [1, 2])"
    using scan_preserves_input_order
      [of stub_pure_loss stub_print "[1, 2]" 0 "[]" 0 "\<lambda>v. - sum_list v"] fn
    by blast
  then have pure: "fst (landscape_scan stub_pure_loss stub_print [1, 2] 0) = Inr [- 1, - 2]"
    by simp
  show ?thesis
    using run tot fn pts ith pure by (intro conjI) simp_all
qed


section \<open>Properties of the modelled engine\<close>

lemma target_count_le:
  "target_count outcome target \<le> sum_list (map snd outcome)"
proof (cases "map_of outcome target")
  case None
  then show ?thesis by (simp add: target_count_def)
next
  case (Some c)
  then have "(target, c) \<in> set outcome" by (rule map_of_SomeD)
  then have "c \<in> set (map snd outcome)" by force
  then have "c \<le> sum_list (map snd outcome)" by (simp add: member_le_sum_list)
  with Some show ?thesis by (simp add: target_count_def)
qed

lemma sample_loss_formula:
  "0 < shots \<Longrightarrow> sample_loss outcome target shots = - (real (target_count outcome target) / real shots)"
  by (simp add: sample_loss_def)

lemma sample_loss_bounds:
  assumes "0 < shots" and "MeasurementOutcome_inv outcome shots"
  shows "- 1 \<le> sample_loss outcome target shots" and "sample_loss outcome target shots \<le> 0"
    and "sample_loss outcome target shots = - 1 \<longleftrightarrow> target_count outcome target = shots"
proof -
  have le: "target_count outcome target \<le> shots"
    using target_count_le [of outcome target] assms(2) by (simp add: MeasurementOutcome_inv_def)
  have f: "sample_loss outcome target shots = - (real (target_count outcome target) / real shots)"
    using assms(1) by (rule sample_loss_formula)
  have "real (target_count outcome target) / real shots \<le> 1"
    using le assms(1) by (simp add: divide_le_eq_1)
  then show "- 1 \<le> sample_loss outcome target shots" by (simp add: f)
  show "sample_loss outcome target shots \<le> 0" by (simp add: f)
  show "sample_loss outcome target shots = - 1 \<longleftrightarrow> target_count outcome target = shots"
    using assms(1) by (auto simp: f)
qed

text \<open>
  C5. For an execution with \<open>shots > 0\<close> whose outcome counts sum to \<open>shots\<close>, the loss of
  the sample is exactly \<open>- (target_count / shots)\<close>; it lies between \<open>-1\<close> and \<open>0\<close>, and
  it is \<open>-1\<close>, the optimum, exactly when every shot gave the target outcome.
\<close>

theorem loss_is_negated_empirical_probability:
  assumes "0 < shots" and "execute circuit shots = Inr outcome"
    and "MeasurementOutcome_inv outcome shots"
  shows "fst (estimate_loss execute target shots circuit st)
           = Inr (- (real (target_count outcome target) / real shots))
       \<and> - 1 \<le> sample_loss outcome target shots
       \<and> sample_loss outcome target shots \<le> 0
       \<and> fst (estimate_loss execute target shots circuit st) = Inr (sample_loss outcome target shots)
       \<and> (sample_loss outcome target shots = - 1 \<longleftrightarrow> target_count outcome target = shots)"
  using assms sample_loss_bounds [of shots outcome target] sample_loss_formula [of shots outcome target]
  by (simp add: estimate_loss_def)

theorem loss_is_negated_empirical_probability_witness:
  "(0 :: nat) < 4
   \<and> (\<lambda>c n. Inr [([0, 0], 3), ([0, 1], 1)]) [CNOT 1 0] 4 = Inr [([0, 0], 3), ([0, 1], 1)]
   \<and> MeasurementOutcome_inv [([0, 0], 3), ([0, 1], 1)] 4
   \<and> target_count [([0, 0], 3), ([0, 1], 1)] [0, 0] = 3
   \<and> fst (estimate_loss (\<lambda>c n. Inr [([0, 0], 3), ([0, 1], 1)]) [0, 0] 4 [CNOT 1 0]
        \<lparr>backend_calls = 0, iteration = 0\<rparr>) = Inr (- (3 / 4))"
proof -
  have inv: "MeasurementOutcome_inv [([0, 0], 3), ([0, 1], 1)] 4"
    by (simp add: MeasurementOutcome_inv_def)
  have tc: "target_count [([0, 0], 3), ([0, 1], 1)] [0, 0] = 3"
    by (simp add: target_count_def)
  from loss_is_negated_empirical_probability
    [of 4 "\<lambda>c n. Inr [([0, 0], 3), ([0, 1], 1)]" "[CNOT 1 0]" "[([0, 0], 3), ([0, 1], 1)]"
      "[0, 0]" "\<lparr>backend_calls = 0, iteration = 0\<rparr>"] inv tc
  show ?thesis by simp
qed

text \<open>
  C6. When the shot count is zero, or the target outcome does not occur among the
  counts of the execution, the loss of the sample is exactly \<open>0\<close>: a value, not an
  error, and one that does not come from a division by zero.
\<close>

theorem loss_zero_without_signal:
  assumes "shots = 0 \<or> target_count outcome target = 0"
    and "execute circuit shots = Inr outcome"
  shows "fst (estimate_loss execute target shots circuit st) = Inr 0"
  using assms by (auto simp: estimate_loss_def sample_loss_def)


theorem loss_zero_without_signal_witness:
  "target_count [([0, 1], 4)] [0, 0] = 0
   \<and> fst (estimate_loss (\<lambda>c n. Inr [([0, 1], 4)]) [0, 0] 4 [CNOT 1 0]
        \<lparr>backend_calls = 0, iteration = 0\<rparr>) = Inr 0
   \<and> fst (estimate_loss (\<lambda>c n. Inr []) [0, 0] 0 [CNOT 1 0]
        \<lparr>backend_calls = 0, iteration = 0\<rparr>) = Inr 0"
proof -
  have tc: "target_count [([0, 1], 4)] [0, 0] = 0"
    by (simp add: target_count_def)
  have a: "fst (estimate_loss (\<lambda>c n. Inr [([0, 1], 4)]) [0, 0] 4 [CNOT 1 0]
        \<lparr>backend_calls = 0, iteration = 0\<rparr>) = Inr 0"
    using loss_zero_without_signal
      [of 4 "[([0, 1], 4)]" "[0, 0]" "\<lambda>c n. Inr [([0, 1], 4)]" "[CNOT 1 0]"
        "\<lparr>backend_calls = 0, iteration = 0\<rparr>"] tc
    by simp
  have b: "fst (estimate_loss (\<lambda>c n. Inr []) [0, 0] 0 [CNOT 1 0]
        \<lparr>backend_calls = 0, iteration = 0\<rparr>) = Inr 0"
    using loss_zero_without_signal
      [of 0 "[]" "[0, 0]" "\<lambda>c n. Inr []" "[CNOT 1 0]" "\<lparr>backend_calls = 0, iteration = 0\<rparr>"]
    by simp
  from tc a b show ?thesis by simp
qed

text \<open>
  With a parameter vector of the expected length the modelled engine does reach the
  backend: one evaluation of the demo instance issues one call per training sample.
\<close>

lemma demo_train_calls_backend:
  "train demo_qae stub_optimizer 1 [0] \<lparr>backend_calls = 0, iteration = 0\<rparr>
     = (Inr [0], \<lparr>backend_calls = 2, iteration = 1\<rparr>)"
  by (simp add: train_def demo_qae_def compute_loss_function_def full_circuit_def
      training_circuit_lambda_def training_circuit_dag_lambda_def dag_indices_def
      compression_indices_def recovery_indices_def order_qubit_labels_def merge_two_dicts_def
      q_in_def q_latent_def q_refresh_def reset_def n_shots_def
      training_circuit_def training_circuit_dag_def getitem_def bind_e_def
      estimate_loss_def stub_backend_def stub_optimizer_def sample_loss_def target_count_def mean_def)

text \<open>
  C7. Optimization mode invoked with a parameter vector whose length differs from the
  expected parameter count of the ansatz returns a configuration error and leaves the
  state as it was: no backend call has been issued.
\<close>

theorem train_rejects_wrong_length:
  assumes "length initial_guess \<noteq> n_parameters q"
  shows "train q propose budget initial_guess st = (Inl ConfigurationError, st)
       \<and> backend_calls (snd (train q propose budget initial_guess st)) = backend_calls st"
  using assms by (simp add: train_def)

theorem train_rejects_wrong_length_witness:
  "length [1 / 10, 2 / 10 :: real] \<noteq> n_parameters demo_qae
   \<and> train demo_qae stub_optimizer 1 [1 / 10, 2 / 10] \<lparr>backend_calls = 0, iteration = 0\<rparr>
       = (Inl ConfigurationError, \<lparr>backend_calls = 0, iteration = 0\<rparr>)
   \<and> backend_calls (snd (train demo_qae stub_optimizer 1 [1 / 10, 2 / 10]
        \<lparr>backend_calls = 0, iteration = 0\<rparr>)) = 0"
proof -
  have h: "length [1 / 10, 2 / 10 :: real] \<noteq> n_parameters demo_qae"
    by (simp add: demo_qae_def)
  from train_rejects_wrong_length [OF h, of stub_optimizer 1 "\<lparr>backend_calls = 0, iteration = 0\<rparr>"] h
  show ?thesis by simp
qed

end
